theory Spec2Isabelle
  imports Complex_Main "HOL-Library.Word" "HOL-Library.Log_Nat"
begin

unbundle bit_operations_syntax

section \<open>Data model\<close>

text \<open>
  The telemetry link of the two nodes: the tracker node (\<^verbatim>\<open>NodoMascota\<close>) samples a
  GNSS fix, packs it into a 13-byte payload and transmits it over LoRa; the base node
  (\<^verbatim>\<open>NodoUsuario\<close>) receives frames, decodes them and keeps the last valid sample.

  The integers of the firmware are machine words. Its \<^verbatim>\<open>double\<close> values are IEEE 754
  binary64 numbers with the arithmetic of the default rounding mode.
\<close>

subsection \<open>Binary64 arithmetic\<close>

text \<open>
  A \<^verbatim>\<open>double\<close> is a finite number, an infinity or a NaN. A finite double is given by the
  real number it denotes (the two zeros are not told apart: no operation of the firmware
  depends on the sign of a zero).
\<close>

datatype double = Finite real | PInf | NInf | NaN

text \<open>\<open>ilog2 x\<close> is the integer \<open>e\<close> with \<open>2\<^sup>e \<le> x < 2\<^sup>e\<^sup>+\<^sup>1\<close>, for positive \<open>x\<close>.\<close>

definition ilog2 :: "real \<Rightarrow> int" where
  "ilog2 x = (if 1 \<le> x then bitlen \<lfloor>x\<rfloor> - 1 else - bitlen (\<lceil>1 / x\<rceil> - 1))"

definition round_half_even :: "real \<Rightarrow> int" where
  "round_half_even t =
     (let f = \<lfloor>t\<rfloor>; d = t - real_of_int f
      in if d < 1 / 2 then f else if 1 / 2 < d then f + 1 else if even f then f else f + 1)"

text \<open>
  Rounding of a real result to binary64, to nearest with ties to even: 53 significant
  bits, the smallest exponent -1022 (below it the spacing stays \<open>2\<^sup>-\<^sup>1\<^sup>0\<^sup>7\<^sup>4\<close>), overflow
  to an infinity from \<open>2\<^sup>1\<^sup>0\<^sup>2\<^sup>4\<close> on.
\<close>

definition fround :: "real \<Rightarrow> double" where
  "fround x =
     (if x = 0 then Finite 0
      else
        let e = max (ilog2 \<bar>x\<bar>) (- 1022);
            u = 2 powi (e - 52);
            y = real_of_int (round_half_even (x / u)) * u
        in if 2 ^ 1024 \<le> \<bar>y\<bar> then (if 0 < x then PInf else NInf) else Finite y)"

text \<open>The product and the quotient of two doubles.\<close>

fun fmul :: "double \<Rightarrow> double \<Rightarrow> double" where
  "fmul (Finite x) (Finite y) = fround (x * y)"
| "fmul NaN b = NaN"
| "fmul a NaN = NaN"
| "fmul (Finite x) PInf = (if x = 0 then NaN else if 0 < x then PInf else NInf)"
| "fmul (Finite x) NInf = (if x = 0 then NaN else if 0 < x then NInf else PInf)"
| "fmul PInf (Finite y) = (if y = 0 then NaN else if 0 < y then PInf else NInf)"
| "fmul NInf (Finite y) = (if y = 0 then NaN else if 0 < y then NInf else PInf)"
| "fmul PInf PInf = PInf"
| "fmul PInf NInf = NInf"
| "fmul NInf PInf = NInf"
| "fmul NInf NInf = PInf"

fun fdiv :: "double \<Rightarrow> double \<Rightarrow> double" where
  "fdiv (Finite x) (Finite y) =
     (if y = 0 then (if x = 0 then NaN else if 0 < x then PInf else NInf)
      else fround (x / y))"
| "fdiv NaN b = NaN"
| "fdiv a NaN = NaN"
| "fdiv (Finite x) PInf = Finite 0"
| "fdiv (Finite x) NInf = Finite 0"
| "fdiv PInf (Finite y) = (if 0 \<le> y then PInf else NInf)"
| "fdiv NInf (Finite y) = (if 0 \<le> y then NInf else PInf)"
| "fdiv PInf PInf = NaN"
| "fdiv PInf NInf = NaN"
| "fdiv NInf PInf = NaN"
| "fdiv NInf NInf = NaN"

subsection \<open>The sample\<close>

text \<open>
  \<^verbatim>\<open>struct GpsInfo { double lat; double lon; uint32_t hhmmss; bool valid; }\<close>
  (\<^verbatim>\<open>gps_handler.h\<close>).
\<close>

record GpsInfo =
  lat :: double
  lon :: double
  hhmmss :: "32 word"
  valid :: bool

subsection \<open>Copying 32-bit values to and from a byte buffer\<close>

text \<open>
  \<^verbatim>\<open>memcpy(&out[k], &v, 4)\<close> and \<^verbatim>\<open>memcpy(&v, &in[k], 4)\<close> on the little-endian
  targets of the firmware: the least significant byte comes first.
\<close>

definition memcpy_store32 :: "32 word \<Rightarrow> 8 word list" where
  "memcpy_store32 w =
     [ucast w, ucast (drop_bit 8 w), ucast (drop_bit 16 w), ucast (drop_bit 24 w)]"

definition memcpy_load32 :: "8 word list \<Rightarrow> 32 word" where
  "memcpy_load32 bs =
     ucast (bs ! 0) OR push_bit 8 (ucast (bs ! 1)) OR push_bit 16 (ucast (bs ! 2))
       OR push_bit 24 (ucast (bs ! 3))"

text \<open>
  \<^verbatim>\<open>lround\<close> of the C library rounds to the nearest integer, halfway cases away from
  zero. \<open>lround\<close> is that rounding on the reals. \<open>lround_long\<close> is the library function
  followed by the conversion \<^verbatim>\<open>(int32_t)\<close>: the rounded value when it fits 32 bits. When
  it does not, or the argument is an infinity or a NaN, C leaves the result unspecified;
  the parameter \<open>U\<close> stands for what the platform returns there.
\<close>

definition lround :: "real \<Rightarrow> int" where
  "lround x = (if 0 \<le> x then \<lfloor>x + 1 / 2\<rfloor> else \<lceil>x - 1 / 2\<rceil>)"

definition lround_long :: "(double \<Rightarrow> 32 word) \<Rightarrow> double \<Rightarrow> 32 word" where
  "lround_long U d =
     (case d of
        Finite y \<Rightarrow>
          if - (2 ^ 31) \<le> lround y \<and> lround y < 2 ^ 31 then word_of_int (lround y) else U d
      | PInf \<Rightarrow> U d
      | NInf \<Rightarrow> U d
      | NaN \<Rightarrow> U d)"

text \<open>
  The local variables \<^verbatim>\<open>latFixed\<close> and \<^verbatim>\<open>lonFixed\<close> of
  \<^verbatim>\<open>GPS_buildBinaryPayload\<close>:
  \<^verbatim>\<open>int32_t latFixed = (int32_t)lround(info.lat * 100000.0);\<close>
\<close>

definition latFixed :: "(double \<Rightarrow> 32 word) \<Rightarrow> GpsInfo \<Rightarrow> 32 word" where
  "latFixed U info = lround_long U (fmul (lat info) (Finite 100000))"

definition lonFixed :: "(double \<Rightarrow> 32 word) \<Rightarrow> GpsInfo \<Rightarrow> 32 word" where
  "lonFixed U info = lround_long U (fmul (lon info) (Finite 100000))"

section \<open>Wire codec (\<^verbatim>\<open>gps_handler.cpp\<close>)\<close>

text \<open>
  \<^verbatim>\<open>size_t GPS_buildBinaryPayload(const GpsInfo& info, uint8_t* out, size_t outSize)\<close>.
  The destination \<open>(out, outSize)\<close> is a buffer of \<open>outSize\<close> bytes, \<open>None\<close> for the null
  pointer. The result is the returned size and the buffer after the call.
\<close>

definition GPS_buildBinaryPayload ::
  "(double \<Rightarrow> 32 word) \<Rightarrow> GpsInfo \<Rightarrow> 8 word list option \<Rightarrow> nat \<times> 8 word list option" where
  "GPS_buildBinaryPayload U info out =
     (case out of
        None \<Rightarrow> (0, None)
      | Some buf \<Rightarrow>
          if length buf < 13 \<or> \<not> valid info then (0, Some buf)
          else (13, Some ([1] @ memcpy_store32 (hhmmss info) @ memcpy_store32 (latFixed U info)
                          @ memcpy_store32 (lonFixed U info) @ drop 13 buf)))"

text \<open>
  \<^verbatim>\<open>bool GPS_parsePayload(const uint8_t* in, size_t len, GpsInfo& out)\<close>.
  The input \<open>(in, len)\<close> is a byte sequence of \<open>len\<close> bytes, \<open>None\<close> for the null pointer.
  The result is the returned flag and \<open>out\<close> after the call. The conversion
  \<^verbatim>\<open>(double)latFixed\<close> is exact, the division by \<^verbatim>\<open>100000.0\<close> is the binary64 one.
\<close>

definition GPS_parsePayload :: "8 word list option \<Rightarrow> GpsInfo \<Rightarrow> bool \<times> GpsInfo" where
  "GPS_parsePayload inp out =
     (case inp of
        None \<Rightarrow> (False, out)
      | Some bs \<Rightarrow>
          if length bs \<noteq> 13 then (False, out)
          else if bs ! 0 \<noteq> 1 then (False, out)
          else
            let t = memcpy_load32 (take 4 (drop 1 bs));
                la = memcpy_load32 (take 4 (drop 5 bs));
                lo = memcpy_load32 (take 4 (drop 9 bs))
            in (True, out\<lparr>hhmmss := t,
                           lat := fdiv (Finite (real_of_int (sint la))) (Finite 100000),
                           lon := fdiv (Finite (real_of_int (sint lo))) (Finite 100000),
                           valid := True\<rparr>))"

subsection \<open>The wire format in the words of the specification\<close>

text \<open>
  The value of a byte sequence read as a little-endian unsigned integer, and as a
  little-endian two's complement 32-bit integer.
\<close>

definition le_unsigned :: "8 word list \<Rightarrow> int" where
  "le_unsigned bs = foldr (\<lambda>b v. uint b + 256 * v) bs 0"

definition le_signed32 :: "8 word list \<Rightarrow> int" where
  "le_signed32 bs = (let u = le_unsigned bs in if u < 2 ^ 31 then u else u - 2 ^ 32)"

text \<open>
  \<open>r\<close> is \<open>x\<close> rounded to the nearest integer, a tie going to the integer further
  from zero.
\<close>

definition nearest_ties_away :: "real \<Rightarrow> int \<Rightarrow> bool" where
  "nearest_ties_away x r =
     (\<bar>real_of_int r - x\<bar> < 1 / 2 \<or> (\<bar>real_of_int r - x\<bar> = 1 / 2 \<and> \<bar>x\<bar> < \<bar>real_of_int r\<bar>))"

section \<open>The radio driver (RadioLib)\<close>

text \<open>
  The status codes of the radio library are integers named by macros of the library.
  The firmware names two of them; every other code the driver may report is kept as a
  number.
\<close>

datatype radiolib_status =
    RADIOLIB_ERR_NONE
  | RADIOLIB_ERR_INVALID_PAYLOAD
  | RADIOLIB_ERR int

text \<open>
  The calls the firmware makes to the transceiver object \<^verbatim>\<open>radio\<close> are recorded in
  the order they are made; \<^verbatim>\<open>startTransmit\<close> with the bytes handed over and the status
  it returned, \<^verbatim>\<open>readData\<close> with the number of bytes asked for.
\<close>

datatype radio_call =
    StartTransmit "8 word list" radiolib_status
  | FinishTransmit
  | GetPacketLength
  | ReadData nat
  | GetRSSI
  | GetSNR
  | StartReceive

section \<open>Transmit session (\<^verbatim>\<open>NodoMascota/src/lora_handler.cpp\<close>)\<close>







section \<open>Fix source (\<^verbatim>\<open>NodoMascota/src/gps_handler.cpp\<close>)\<close>




section \<open>Periodic send scheduler (\<^verbatim>\<open>NodoMascota/src/main.cpp\<close>)\<close>








section \<open>Receive session and sample cache (\<^verbatim>\<open>Software/NodoUsuario/src/lora_handler.cpp\<close>)\<close>

definition LORA_MAX_READ :: int where
  "LORA_MAX_READ = 64"

text \<open>
  The static variables of the module: the flag raised by the interrupt routine, the
  last valid sample and the metrics of the last packet.
\<close>

record rx_state =
  s_rxFlag :: bool
  s_lastGps :: GpsInfo
  s_lastRssi :: real
  s_lastSnr :: real
  rx_calls :: "radio_call list"

text \<open>
  What the transceiver answers during one call of \<^verbatim>\<open>LORA_rxTick\<close>: the packet length
  (a \<^verbatim>\<open>size_t\<close>), the status of \<^verbatim>\<open>readData\<close>, the contents of the local buffer
  \<^verbatim>\<open>buf\<close> after \<^verbatim>\<open>readData\<close>, byte by byte, and the two metrics.
\<close>

record rx_driver =
  getPacketLength :: "32 word"
  readData_status :: radiolib_status
  readData_buf :: "nat \<Rightarrow> 8 word"
  getRSSI :: real
  getSNR :: real

definition onPacketISR :: "rx_state \<Rightarrow> rx_state" where
  "onPacketISR s = s\<lparr>s_rxFlag := True\<rparr>"

text \<open>
  The value of \<^verbatim>\<open>len\<close> handed to \<^verbatim>\<open>radio.readData(buf, len)\<close>:
  \<^verbatim>\<open>int16_t len = radio.getPacketLength();\<close>
  \<^verbatim>\<open>if (len <= 0) len = LORA_MAX_READ; if (len > LORA_MAX_READ) len = LORA_MAX_READ;\<close>
\<close>

definition rx_len :: "rx_driver \<Rightarrow> int" where
  "rx_len d =
     (let len0 = sint (ucast (getPacketLength d) :: 16 word);
          len1 = (if len0 \<le> 0 then LORA_MAX_READ else len0)
      in if len1 > LORA_MAX_READ then LORA_MAX_READ else len1)"

definition LORA_rxTick :: "rx_driver \<Rightarrow> rx_state \<Rightarrow> rx_state" where
  "LORA_rxTick d s =
     (if \<not> s_rxFlag s then s
      else
        let s1 = s\<lparr>s_rxFlag := False\<rparr>;
            len = rx_len d;
            s2 = s1\<lparr>rx_calls := rx_calls s1 @ [GetPacketLength, ReadData (nat len)]\<rparr>;
            s3 = (if readData_status d = RADIOLIB_ERR_NONE then
                    (let s4 = s2\<lparr>s_lastRssi := getRSSI d, s_lastSnr := getSNR d,
                                 rx_calls := rx_calls s2 @ [GetRSSI, GetSNR]\<rparr>
                     in if len = 13 \<and> readData_buf d 0 = 1 then
                          (case GPS_parsePayload
                                  (Some (map (readData_buf d) [0, 1, 2, 3, 4, 5, 6, 7, 8, 9, 10, 11, 12]))
                                  \<lparr>lat = Finite 0, lon = Finite 0, hhmmss = 0, valid = False\<rparr> of
                             (ok, gi) \<Rightarrow> if ok \<and> valid gi then s4\<lparr>s_lastGps := gi\<rparr> else s4)
                        else s4)
                  else s2)
        in s3\<lparr>rx_calls := rx_calls s3 @ [StartReceive]\<rparr>)"

text \<open>
  \<^verbatim>\<open>bool LORA_lastValidGPS(GpsInfo& out, float* rssi_dBm, float* snr_dB)\<close> with both
  pointers given: \<open>None\<close> for \<^verbatim>\<open>false\<close>, otherwise the three values written.
\<close>

definition LORA_lastValidGPS :: "rx_state \<Rightarrow> (GpsInfo \<times> real \<times> real) option" where
  "LORA_lastValidGPS s =
     (if \<not> valid (s_lastGps s) then None
      else Some (s_lastGps s, s_lastRssi s, s_lastSnr s))"

section \<open>The sends a node has made\<close>





section \<open>States and inputs used as examples\<close>

text \<open>
  The sample of the scenario of the specification: the doubles nearest to 40.4168 and
  -3.7038, at 21:15:07, and its frame. Two more samples: the double nearest to 40.416815,
  and the latitude 1/64. A fix at 40.5 N, 3.75 W at a given time of day.
  The transmit session and the node as \<^verbatim>\<open>setup()\<close> leaves them; the node with the frame
  of 21:15:00 in flight, and the same node after the completion interrupt. A platform
  on which \<^verbatim>\<open>lround\<close> answers 0 where C leaves it unspecified.
\<close>

definition sample_211507 :: GpsInfo where
  "sample_211507 =
     \<lparr>lat = Finite (5688158919359621 / 2 ^ 47), lon = Finite (- 4170108074963711 / 2 ^ 50),
       hhmmss = 211507, valid = True\<rparr>"

definition frame_211507 :: "8 word list" where
  "frame_211507 =
     [1, 0x33, 0x3A, 0x03, 0x00, 0xD0, 0xAB, 0x3D, 0x00, 0x34, 0x59, 0xFA, 0xFF]"

definition sample_tie :: GpsInfo where
  "sample_tie =
     \<lparr>lat = Finite (2844080515210973 / 2 ^ 46), lon = Finite 0, hhmmss = 211507, valid = True\<rparr>"

definition sample_64th :: GpsInfo where
  "sample_64th = \<lparr>lat = Finite (1 / 64), lon = Finite 0, hhmmss = 211507, valid = True\<rparr>"

definition unspecified_zero :: "double \<Rightarrow> 32 word" where
  "unspecified_zero d = 0"






section \<open>Bytes and words\<close>

lemma memcpy_load_store: "memcpy_load32 (memcpy_store32 w) = w"
proof (rule bit_word_eqI)
  fix n :: nat
  assume n: "n < LENGTH(32)"
  consider "n < 8" | "8 \<le> n" "n < 16" | "16 \<le> n" "n < 24" | "24 \<le> n" "n < 32"
    using n by fastforce
  then show "bit (memcpy_load32 (memcpy_store32 w)) n = bit w n"
    by cases (auto simp add: memcpy_load32_def memcpy_store32_def bit_simps)
qed

lemma length_memcpy_store32: "length (memcpy_store32 w) = 4"
  by (simp add: memcpy_store32_def)

lemma bit_byte_less: "bit (a :: 8 word) n \<Longrightarrow> n < 8"
  using bit_imp_le_length [of a n] by simp

lemma uint_bytes_concat:
  "uint (ucast (a :: 8 word) OR push_bit 8 (ucast (b :: 8 word))
         OR push_bit 16 (ucast (c :: 8 word)) OR push_bit 24 (ucast (d :: 8 word)) :: 32 word)
   = concat_bit 8 (uint a) (concat_bit 8 (uint b) (concat_bit 8 (uint c) (uint d)))"
  (is "uint ?w = ?k")
proof (rule bit_eqI)
  fix n :: nat
  have "n < 8 \<or> (8 \<le> n \<and> n - 8 < 8) \<or> (16 \<le> n \<and> n - 16 < 8)
        \<or> (24 \<le> n \<and> n - 24 < 8) \<or> 32 \<le> n"
    by arith
  then consider "n < 8" | m where "n = 8 + m" "m < 8" | m where "n = 16 + m" "m < 8"
    | m where "n = 24 + m" "m < 8" | "32 \<le> n"
    by (metis le_add_diff_inverse)
  then show "bit (uint ?w) n = bit ?k n"
    by cases (auto simp add: bit_simps dest: bit_byte_less)
qed

lemma take_bit_uint_byte: "take_bit 8 (uint (a :: 8 word)) = uint a"
  using uint_lt2p [of a] by (simp add: take_bit_int_eq_self)

lemma uint_memcpy_load32:
  "uint (memcpy_load32 [a, b, c, d]) = le_unsigned [a, b, c, d]"
proof -
  have "concat_bit 8 (uint a) (concat_bit 8 (uint b) (concat_bit 8 (uint c) (uint d)))
      = uint a + 256 * (uint b + 256 * (uint c + 256 * uint d))"
    by (simp add: concat_bit_eq take_bit_uint_byte push_bit_eq_mult)
  with uint_bytes_concat [of a b c d] show ?thesis
    by (simp add: memcpy_load32_def le_unsigned_def)
qed

lemma sint_word_of_int_32: "- (2 ^ 31) \<le> k \<Longrightarrow> k < 2 ^ 31 \<Longrightarrow> sint (word_of_int k :: 32 word) = k"
  by (simp add: sint_sbintrunc' signed_take_bit_int_eq_self)

lemma sint_32_uint: "sint (w :: 32 word) = (if uint w < 2 ^ 31 then uint w else uint w - 2 ^ 32)"
proof (cases "uint w < 2 ^ 31")
  case True
  have "- (2 ^ 31) \<le> (0 :: int)" by simp
  also have "0 \<le> uint w" by simp
  finally have "- (2 ^ 31) \<le> uint w" .
  then have "sint (word_of_int (uint w) :: 32 word) = uint w"
    using True by (rule sint_word_of_int_32)
  with True show ?thesis by simp
next
  case False
  have "uint w < 2 ^ 32" using uint_lt2p [of w] by simp
  with False have "- (2 ^ 31) \<le> uint w - 2 ^ 32" "uint w - 2 ^ 32 < 2 ^ 31"
    by simp_all
  then have "sint (word_of_int (uint w - 2 ^ 32) :: 32 word) = uint w - 2 ^ 32"
    by (rule sint_word_of_int_32)
  moreover have "(word_of_int (uint w - 2 ^ 32) :: 32 word) = w"
    by (simp add: wi_hom_sub)
  ultimately have "sint w = uint w - 2 ^ 32"
    by (simp only:)
  with False show ?thesis by simp
qed

section \<open>Rounding\<close>

lemma lround_error: "\<bar>real_of_int (lround x) - x\<bar> \<le> 1 / 2"
proof (cases "0 \<le> x")
  case True
  then have "lround x = \<lfloor>x + 1 / 2\<rfloor>" by (simp add: lround_def)
  then show ?thesis by linarith
next
  case False
  then have "lround x = \<lceil>x - 1 / 2\<rceil>" by (simp add: lround_def)
  then show ?thesis by linarith
qed

lemma lround_nearest: "nearest_ties_away x (lround x)"
proof (cases "0 \<le> x")
  case True
  then have "lround x = \<lfloor>x + 1 / 2\<rfloor>" by (simp add: lround_def)
  then have "real_of_int (lround x) \<le> x + 1 / 2" "x + 1 / 2 < real_of_int (lround x) + 1"
    by linarith+
  with True show ?thesis
    unfolding nearest_ties_away_def by linarith
next
  case False
  then have "lround x = \<lceil>x - 1 / 2\<rceil>" by (simp add: lround_def)
  then have "x - 1 / 2 \<le> real_of_int (lround x)" "real_of_int (lround x) < x - 1 / 2 + 1"
    by linarith+
  with False show ?thesis
    unfolding nearest_ties_away_def by linarith
qed

section \<open>Stored fields read back as integers\<close>

lemma le_unsigned_store: "le_unsigned (memcpy_store32 w) = uint w"
proof -
  obtain a b c d where s: "memcpy_store32 w = [a, b, c, d]"
    by (simp add: memcpy_store32_def)
  have "uint (memcpy_load32 (memcpy_store32 w)) = le_unsigned (memcpy_store32 w)"
    unfolding s by (rule uint_memcpy_load32)
  then show ?thesis by (simp add: memcpy_load_store)
qed

lemma le_signed32_store: "le_signed32 (memcpy_store32 w) = sint w"
  by (simp add: le_signed32_def le_unsigned_store sint_32_uint)

lemma list4: "length xs = 4 \<Longrightarrow> \<exists>a b c d. xs = [a, b, c, d]"
  by (auto simp add: length_Suc_conv eval_nat_numeral)

lemma uint_memcpy_load32_le: "length xs = 4 \<Longrightarrow> uint (memcpy_load32 xs) = le_unsigned xs"
  using list4 [of xs] uint_memcpy_load32 by auto

lemma sint_memcpy_load32_le: "length xs = 4 \<Longrightarrow> sint (memcpy_load32 xs) = le_signed32 xs"
  by (simp add: le_signed32_def sint_32_uint uint_memcpy_load32_le)

section \<open>Binary64 rounding\<close>

lemma round_half_even_error: "\<bar>real_of_int (round_half_even t) - t\<bar> \<le> 1 / 2"
  unfolding round_half_even_def Let_def by (auto; linarith)

lemma ilog2_ge1:
  assumes "1 \<le> x"
  shows "2 powi (ilog2 x) \<le> x \<and> x < 2 powi (ilog2 x + 1)"
proof -
  let ?n = "\<lfloor>x\<rfloor>"
  have n: "0 < ?n" using assms by linarith
  from bitlen_bounds [OF n] have b: "2 ^ nat (bitlen ?n - 1) \<le> ?n" "?n < 2 ^ nat (bitlen ?n)"
    by simp_all
  have pos: "1 \<le> bitlen ?n" using n by (simp add: bitlen_alt_def)
  have il: "ilog2 x = bitlen ?n - 1" using assms by (simp add: ilog2_def)
  have "2 powi (bitlen ?n - 1) = (2::real) ^ nat (bitlen ?n - 1)"
    using pos by (simp add: power_int_nonneg_exp)
  also have "\<dots> \<le> real_of_int ?n" using b(1) by (metis of_int_le_iff of_int_numeral of_int_power)
  also have "\<dots> \<le> x" by simp
  finally have lo: "2 powi (ilog2 x) \<le> x" by (simp add: il)
  have "?n + 1 \<le> 2 ^ nat (bitlen ?n)" using b(2) by simp
  then have "real_of_int (?n + 1) \<le> (2::real) ^ nat (bitlen ?n)"
    by (metis of_int_le_iff of_int_numeral of_int_power)
  moreover have "x < real_of_int (?n + 1)" by linarith
  moreover have "2 powi (bitlen ?n) = (2::real) ^ nat (bitlen ?n)"
    using pos by (simp add: power_int_nonneg_exp)
  ultimately have "x < 2 powi (bitlen ?n)" by linarith
  then have "x < 2 powi (ilog2 x + 1)" by (simp add: il)
  with lo show ?thesis by simp
qed

lemma ilog2_lt1:
  assumes "0 < x" "x < 1"
  shows "2 powi (ilog2 x) \<le> x \<and> x < 2 powi (ilog2 x + 1)"
proof -
  let ?c = "\<lceil>1 / x\<rceil>"
  have r: "1 < 1 / x" using assms by simp
  then have c: "0 < ?c - 1" by linarith
  from bitlen_bounds [OF c] have b: "2 ^ nat (bitlen (?c - 1) - 1) \<le> ?c - 1" "?c - 1 < 2 ^ nat (bitlen (?c - 1))"
    by simp_all
  have pos: "1 \<le> bitlen (?c - 1)" using c by (simp add: bitlen_alt_def)
  have il: "ilog2 x = - bitlen (?c - 1)" using assms by (simp add: ilog2_def)
  let ?b = "bitlen (?c - 1)"
  have "real_of_int (?c - 1) < 1 / x" by linarith
  moreover have "(2::real) ^ nat (?b - 1) \<le> real_of_int (?c - 1)"
    using b(1) by (metis of_int_le_iff of_int_numeral of_int_power)
  ultimately have up: "(2::real) ^ nat (?b - 1) < 1 / x" by linarith
  have "?c \<le> 2 ^ nat ?b" using b(2) by simp
  then have "real_of_int ?c \<le> (2::real) ^ nat ?b"
    by (metis of_int_le_iff of_int_numeral of_int_power)
  moreover have "1 / x \<le> real_of_int ?c" by linarith
  ultimately have lo: "1 / x \<le> (2::real) ^ nat ?b" by linarith
  have p1: "2 powi (- ?b) = 1 / (2::real) ^ nat ?b"
    using pos by (simp add: power_int_minus power_int_nonneg_exp field_simps)
  have p2: "2 powi (- ?b + 1) = 1 / (2::real) ^ nat (?b - 1)"
  proof -
    have "- ?b + 1 = - (?b - 1)" by simp
    then have "2 powi (- ?b + 1) = inverse ((2::real) powi (?b - 1))"
      by (simp only: power_int_minus)
    also have "\<dots> = 1 / (2::real) ^ nat (?b - 1)"
      using pos by (simp add: power_int_nonneg_exp field_simps)
    finally show ?thesis .
  qed
  have "1 / (2::real) ^ nat ?b \<le> x"
    using lo assms(1) by (simp add: field_simps)
  then have A: "2 powi (ilog2 x) \<le> x"
    unfolding il p1 .
  have "x < 1 / (2::real) ^ nat (?b - 1)"
    using up assms(1) by (simp add: field_simps)
  then have B: "x < 2 powi (ilog2 x + 1)"
    unfolding il p2 .
  from A B show ?thesis by simp
qed

lemma ilog2_bounds: "0 < x \<Longrightarrow> 2 powi (ilog2 x) \<le> x \<and> x < 2 powi (ilog2 x + 1)"
  using ilog2_ge1 [of x] ilog2_lt1 [of x] by (cases "1 \<le> x") simp_all

lemma powi_less_imp_less: "(2::real) powi a < 2 powi b \<Longrightarrow> a < b"
proof (rule ccontr)
  assume a: "(2::real) powi a < 2 powi b" and "\<not> a < b"
  then have "b \<le> a" by simp
  then have "(2::real) powi b \<le> 2 powi a" by (intro power_int_increasing) simp_all
  with a show False by simp
qed

lemma fround_grid:
  assumes "x \<noteq> 0"
  defines "e \<equiv> max (ilog2 \<bar>x\<bar>) (- 1022)"
  defines "y \<equiv> real_of_int (round_half_even (x / 2 powi (e - 52))) * 2 powi (e - 52)"
  shows "\<bar>y - x\<bar> \<le> 2 powi (e - 53)"
    and "fround x = (if 2 ^ 1024 \<le> \<bar>y\<bar> then (if 0 < x then PInf else NInf) else Finite y)"
proof -
  let ?u = "(2::real) powi (e - 52)"
  have u: "0 < ?u" by simp
  have "\<bar>real_of_int (round_half_even (x / ?u)) - x / ?u\<bar> \<le> 1 / 2"
    by (rule round_half_even_error)
  then have "\<bar>real_of_int (round_half_even (x / ?u)) - x / ?u\<bar> * ?u \<le> 1 / 2 * ?u"
    using u by (intro mult_right_mono) simp_all
  moreover have "\<bar>real_of_int (round_half_even (x / ?u)) - x / ?u\<bar> * ?u = \<bar>y - x\<bar>"
  proof -
    have "\<bar>real_of_int (round_half_even (x / ?u)) - x / ?u\<bar> * ?u
       = \<bar>(real_of_int (round_half_even (x / ?u)) - x / ?u) * ?u\<bar>"
      using u by (simp add: abs_mult)
    also have "(real_of_int (round_half_even (x / ?u)) - x / ?u) * ?u = y - x"
      using u by (simp add: y_def field_simps)
    finally show ?thesis .
  qed
  moreover have "1 / 2 * ?u = 2 powi (e - 53)"
  proof -
    have "(2::real) powi (e - 52) = 2 powi ((e - 53) + 1)" by simp
    also have "\<dots> = 2 powi (e - 53) * 2" by (subst power_int_add) simp_all
    finally show ?thesis by simp
  qed
  ultimately show "\<bar>y - x\<bar> \<le> 2 powi (e - 53)" by simp
  show "fround x = (if 2 ^ 1024 \<le> \<bar>y\<bar> then (if 0 < x then PInf else NInf) else Finite y)"
    using assms(1) by (simp add: fround_def Let_def e_def y_def)
qed

text \<open>
  In the normal range the rounding error is at most \<open>2\<^sup>-\<^sup>5\<^sup>3\<close> of the result that is
  rounded; below it the rounded value stays small.
\<close>

lemma fround_normal:
  assumes lo: "2 powi (- 1022) \<le> \<bar>x\<bar>" and hi: "\<bar>x\<bar> < 2 ^ 1023"
  shows "\<exists>y. fround x = Finite y \<and> \<bar>y - x\<bar> \<le> \<bar>x\<bar> / 2 ^ 53"
proof -
  have x0: "x \<noteq> 0" using lo by (auto simp: power_int_minus)
  then have pos: "0 < \<bar>x\<bar>" by simp
  define e where "e = max (ilog2 \<bar>x\<bar>) (- 1022)"
  define y where "y = real_of_int (round_half_even (x / 2 powi (e - 52))) * 2 powi (e - 52)"
  note g = fround_grid [OF x0, folded e_def, folded y_def]
  from ilog2_bounds [OF pos] have b: "2 powi (ilog2 \<bar>x\<bar>) \<le> \<bar>x\<bar>" "\<bar>x\<bar> < 2 powi (ilog2 \<bar>x\<bar> + 1)"
    by simp_all
  have "(2::real) powi (- 1022) < 2 powi (ilog2 \<bar>x\<bar> + 1)" using lo b(2) by linarith
  then have "- 1022 < ilog2 \<bar>x\<bar> + 1" by (rule powi_less_imp_less)
  then have e: "e = ilog2 \<bar>x\<bar>" by (simp add: e_def)
  have "(2::real) powi (e - 53) = 2 powi e / 2 powi 53"
    by (rule power_int_diff) simp
  also have "\<dots> \<le> \<bar>x\<bar> / 2 ^ 53" using b(1) by (simp add: e divide_right_mono)
  finally have err: "\<bar>y - x\<bar> \<le> \<bar>x\<bar> / 2 ^ 53" using g(1) by linarith
  have "\<bar>y\<bar> \<le> \<bar>x\<bar> + \<bar>x\<bar> / 2 ^ 53" using err by linarith
  also have "\<dots> < 2 ^ 1023 + 2 ^ 1023 / 2 ^ 53" using hi by (simp add: add_strict_mono divide_strict_right_mono)
  also have "\<dots> \<le> (2::real) ^ 1024" by simp
  finally have "\<not> 2 ^ 1024 \<le> \<bar>y\<bar>" by simp
  with g(2) err show ?thesis by simp
qed

lemma fround_subnormal:
  assumes "\<bar>x\<bar> < 2 powi (- 1022)"
  shows "\<exists>y. fround x = Finite y \<and> \<bar>y\<bar> < 1 / 2"
proof (cases "x = 0")
  case True
  then show ?thesis by (simp add: fround_def)
next
  case x0: False
  then have pos: "0 < \<bar>x\<bar>" by simp
  define e where "e = max (ilog2 \<bar>x\<bar>) (- 1022)"
  define y where "y = real_of_int (round_half_even (x / 2 powi (e - 52))) * 2 powi (e - 52)"
  note g = fround_grid [OF x0, folded e_def, folded y_def]
  from ilog2_bounds [OF pos] have "2 powi (ilog2 \<bar>x\<bar>) \<le> \<bar>x\<bar>" by simp
  with assms have "(2::real) powi (ilog2 \<bar>x\<bar>) < 2 powi (- 1022)" by linarith
  then have "ilog2 \<bar>x\<bar> < - 1022" by (rule powi_less_imp_less)
  then have e: "e = - 1022" by (simp add: e_def)
  have small: "(2::real) powi (- 1022) \<le> 1 / 8" "(2::real) powi (- 1075) \<le> 1 / 8"
    by (simp_all add: power_int_minus field_simps)
  have "\<bar>y - x\<bar> \<le> 2 powi (- 1075)" using g(1) by (simp add: e)
  then have "\<bar>y\<bar> < 1 / 2" using assms small by linarith
  then have "\<not> 2 ^ 1024 \<le> \<bar>y\<bar>" by simp
  with g(2) \<open>\<bar>y\<bar> < 1 / 2\<close> show ?thesis by simp
qed

text \<open>The conversions of the codec: product, rounding to an integer, quotient.\<close>

lemma lround_small: "\<bar>p\<bar> < 1 / 2 \<Longrightarrow> lround p = 0"
  unfolding lround_def by (auto; linarith)

lemma fround_lround:
  assumes "\<bar>x\<bar> < 2 ^ 1023"
  shows "\<exists>p. fround x = Finite p \<and> \<bar>real_of_int (lround p) - x\<bar> \<le> 1 / 2 + \<bar>x\<bar> / 2 ^ 53"
proof (cases "\<bar>x\<bar> < 2 powi (- 1022)")
  case True
  then obtain p where p: "fround x = Finite p" "\<bar>p\<bar> < 1 / 2"
    using fround_subnormal by blast
  have "(2::real) powi (- 1022) \<le> 1 / 2"
    by (simp add: power_int_minus field_simps)
  with True have "\<bar>x\<bar> \<le> 1 / 2" by linarith
  moreover have "0 \<le> \<bar>x\<bar> / 2 ^ 53" by simp
  ultimately have "\<bar>real_of_int (lround p) - x\<bar> \<le> 1 / 2 + \<bar>x\<bar> / 2 ^ 53"
    using lround_small [OF p(2)] by simp
  with p(1) show ?thesis by blast
next
  case False
  then have "2 powi (- 1022) \<le> \<bar>x\<bar>" by simp
  from fround_normal [OF this assms] obtain p where
    p: "fround x = Finite p" "\<bar>p - x\<bar> \<le> \<bar>x\<bar> / 2 ^ 53"
    by blast
  have "\<bar>real_of_int (lround p) - x\<bar> \<le> 1 / 2 + \<bar>x\<bar> / 2 ^ 53"
    using lround_error [of p] p(2) by linarith
  with p(1) show ?thesis by blast
qed

lemma lround_long_fits:
  assumes "\<bar>x\<bar> \<le> 2147483647"
  shows "\<exists>p. fround x = Finite p \<and> sint (lround_long U (fround x)) = lround p
           \<and> \<bar>real_of_int (lround p) - x\<bar> \<le> 1 / 2 + \<bar>x\<bar> / 2 ^ 53"
proof -
  have "\<bar>x\<bar> < 2 ^ 1023" using assms by (rule le_less_trans) simp
  from fround_lround [OF this] obtain p where
    p: "fround x = Finite p" "\<bar>real_of_int (lround p) - x\<bar> \<le> 1 / 2 + \<bar>x\<bar> / 2 ^ 53"
    by blast
  have "\<bar>x\<bar> / 2 ^ 53 \<le> 2147483647 / 2 ^ 53" using assms by (simp add: divide_right_mono)
  also have "\<dots> < (1 / 2 :: real)" by simp
  finally have "\<bar>real_of_int (lround p)\<bar> < 2147483648" using p(2) assms by linarith
  then have "\<bar>lround p\<bar> < 2147483648" by linarith
  then have "- (2 ^ 31) \<le> lround p" "lround p < 2 ^ 31" by simp_all
  then have "sint (lround_long U (Finite p)) = lround p"
    by (simp add: lround_long_def sint_word_of_int_32)
  with p show ?thesis by auto
qed

lemma fdiv_100000:
  assumes "\<bar>k\<bar> \<le> 2147483648"
  shows "\<exists>q. fdiv (Finite (real_of_int k)) (Finite 100000) = Finite q
           \<and> \<bar>q - real_of_int k / 100000\<bar> \<le> \<bar>real_of_int k / 100000\<bar> / 2 ^ 53"
proof (cases "k = 0")
  case True
  then show ?thesis by (simp add: fround_def)
next
  case False
  then have "1 \<le> \<bar>real_of_int k\<bar>" by linarith
  then have "1 / 100000 \<le> \<bar>real_of_int k / 100000\<bar>" by simp
  moreover have "(2::real) powi (- 1022) \<le> 1 / 100000"
    by (simp add: power_int_minus field_simps)
  ultimately have lo: "2 powi (- 1022) \<le> \<bar>real_of_int k / 100000\<bar>" by linarith
  have "\<bar>real_of_int k\<bar> \<le> 2147483648" using assms by linarith
  then have "\<bar>real_of_int k / 100000\<bar> \<le> 2147483648" by simp
  then have hi: "\<bar>real_of_int k / 100000\<bar> < 2 ^ 1023" by (rule le_less_trans) simp
  from fround_normal [OF lo hi] show ?thesis by simp
qed

lemma le_signed32_range: "length bs = 4 \<Longrightarrow> \<bar>le_signed32 bs\<bar> \<le> 2147483648"
  using sint_ge [of "memcpy_load32 bs"] sint_lt [of "memcpy_load32 bs"]
  by (simp add: sint_memcpy_load32_le)

section \<open>Decoding\<close>

text \<open>
  C5. \<^verbatim>\<open>GPS_parsePayload\<close> fails exactly when the input pointer is null, the length
  is not 13 or the first byte is not 1, and then leaves \<open>out\<close> alone. Otherwise it
  succeeds: the time of day is the little-endian unsigned integer of bytes 1 to 4,
  latitude and longitude are the little-endian signed integers of bytes 5 to 8 and 9 to
  12 divided by 100000.0 (the quotient of doubles, a finite double within \<open>2\<^sup>-\<^sup>5\<^sup>3\<close> of
  the real quotient, relatively), and the sample is marked valid.
\<close>

theorem GPS_parsePayload_decodes:
  "(\<not> fst (GPS_parsePayload inp out)
      \<longleftrightarrow> inp = None \<or> length (the inp) \<noteq> 13 \<or> the inp ! 0 \<noteq> 1)
   \<and> (\<not> fst (GPS_parsePayload inp out) \<longrightarrow> snd (GPS_parsePayload inp out) = out)
   \<and> (fst (GPS_parsePayload inp out) \<longrightarrow>
        uint (hhmmss (snd (GPS_parsePayload inp out))) = le_unsigned (take 4 (drop 1 (the inp)))
      \<and> lat (snd (GPS_parsePayload inp out))
          = fdiv (Finite (real_of_int (le_signed32 (take 4 (drop 5 (the inp)))))) (Finite 100000)
      \<and> lon (snd (GPS_parsePayload inp out))
          = fdiv (Finite (real_of_int (le_signed32 (take 4 (drop 9 (the inp)))))) (Finite 100000)
      \<and> (\<exists>a b. lat (snd (GPS_parsePayload inp out)) = Finite a
             \<and> lon (snd (GPS_parsePayload inp out)) = Finite b
             \<and> \<bar>a - real_of_int (le_signed32 (take 4 (drop 5 (the inp)))) / 100000\<bar>
                 \<le> \<bar>real_of_int (le_signed32 (take 4 (drop 5 (the inp)))) / 100000\<bar> / 2 ^ 53
             \<and> \<bar>b - real_of_int (le_signed32 (take 4 (drop 9 (the inp)))) / 100000\<bar>
                 \<le> \<bar>real_of_int (le_signed32 (take 4 (drop 9 (the inp)))) / 100000\<bar> / 2 ^ 53)
      \<and> valid (snd (GPS_parsePayload inp out)))"
proof (cases inp)
  case None
  then show ?thesis by (simp add: GPS_parsePayload_def)
next
  case (Some bs)
  show ?thesis
  proof (cases "length bs = 13 \<and> bs ! 0 = 1")
    case True
    then have len: "length (take 4 (drop 1 bs)) = 4" "length (take 4 (drop 5 bs)) = 4"
      "length (take 4 (drop 9 bs)) = 4"
      by simp_all
    have r: "GPS_parsePayload inp out =
      (True, out\<lparr>hhmmss := memcpy_load32 (take 4 (drop 1 bs)),
              lat := fdiv (Finite (real_of_int (le_signed32 (take 4 (drop 5 bs))))) (Finite 100000),
              lon := fdiv (Finite (real_of_int (le_signed32 (take 4 (drop 9 bs))))) (Finite 100000),
              valid := True\<rparr>)"
      using Some True len
      by (simp add: GPS_parsePayload_def Let_def sint_memcpy_load32_le del: of_int_sint take_all)
    obtain a where a: "fdiv (Finite (real_of_int (le_signed32 (take 4 (drop 5 bs))))) (Finite 100000) = Finite a"
        "\<bar>a - real_of_int (le_signed32 (take 4 (drop 5 bs))) / 100000\<bar>
           \<le> \<bar>real_of_int (le_signed32 (take 4 (drop 5 bs))) / 100000\<bar> / 2 ^ 53"
      using fdiv_100000 [OF le_signed32_range [OF len(2)]] by blast
    obtain b where b: "fdiv (Finite (real_of_int (le_signed32 (take 4 (drop 9 bs))))) (Finite 100000) = Finite b"
        "\<bar>b - real_of_int (le_signed32 (take 4 (drop 9 bs))) / 100000\<bar>
           \<le> \<bar>real_of_int (le_signed32 (take 4 (drop 9 bs))) / 100000\<bar> / 2 ^ 53"
      using fdiv_100000 [OF le_signed32_range [OF len(3)]] by blast
    show ?thesis
      unfolding r using Some True a b len(1)
      by (simp add: uint_memcpy_load32_le del: take_all)
  next
    case False
    then show ?thesis using Some by (auto simp add: GPS_parsePayload_def)
  qed
qed

text \<open>
  The frame of the scenario decodes to the sample of the scenario: 21:15:07 and the
  doubles nearest to 40.4168 and -3.7038.
\<close>

theorem GPS_parsePayload_decodes_witness:
  "fst (GPS_parsePayload (Some frame_211507)
          \<lparr>lat = Finite 0, lon = Finite 0, hhmmss = 0, valid = False\<rparr>)
   \<and> uint (hhmmss (snd (GPS_parsePayload (Some frame_211507)
          \<lparr>lat = Finite 0, lon = Finite 0, hhmmss = 0, valid = False\<rparr>))) = 211507
   \<and> lat (snd (GPS_parsePayload (Some frame_211507)
          \<lparr>lat = Finite 0, lon = Finite 0, hhmmss = 0, valid = False\<rparr>)) = lat sample_211507
   \<and> lon (snd (GPS_parsePayload (Some frame_211507)
          \<lparr>lat = Finite 0, lon = Finite 0, hhmmss = 0, valid = False\<rparr>)) = lon sample_211507"
  using GPS_parsePayload_decodes [of "Some frame_211507"
      "\<lparr>lat = Finite 0, lon = Finite 0, hhmmss = 0, valid = False\<rparr>"]
  by (simp add: frame_211507_def sample_211507_def le_unsigned_def le_signed32_def
      fround_def ilog2_def round_half_even_def compute_bitlen Let_def)

section \<open>Encoding\<close>

lemma frame_fields:
  "take 4 (drop 1 ([m] @ memcpy_store32 a @ memcpy_store32 b @ memcpy_store32 c @ rest)) = memcpy_store32 a"
  "take 4 (drop 5 ([m] @ memcpy_store32 a @ memcpy_store32 b @ memcpy_store32 c @ rest)) = memcpy_store32 b"
  "take 4 (drop 9 ([m] @ memcpy_store32 a @ memcpy_store32 b @ memcpy_store32 c @ rest)) = memcpy_store32 c"
  by (simp_all add: memcpy_store32_def)

lemma GPS_buildBinaryPayload_ok:
  "valid info \<Longrightarrow> 13 \<le> length buf \<Longrightarrow>
   GPS_buildBinaryPayload U info (Some buf) =
     (13, Some ([1] @ memcpy_store32 (hhmmss info) @ memcpy_store32 (latFixed U info)
                @ memcpy_store32 (lonFixed U info) @ drop 13 buf))"
  by (simp add: GPS_buildBinaryPayload_def)

lemma scaled_field:
  assumes "\<bar>x\<bar> * 100000 \<le> 2147483647"
  shows "\<exists>p. fmul (Finite x) (Finite 100000) = Finite p
           \<and> sint (lround_long U (fmul (Finite x) (Finite 100000))) = lround p
           \<and> \<bar>real_of_int (lround p) - x * 100000\<bar> \<le> 1 / 2 + \<bar>x * 100000\<bar> / 2 ^ 53"
proof -
  have "\<bar>x * 100000\<bar> \<le> 2147483647" using assms by (simp add: abs_mult)
  from lround_long_fits [OF this, of U] show ?thesis by simp
qed



section \<open>Rounding of the coordinates\<close>

lemma quantization:
  "\<bar>real_of_int k - x * 100000\<bar> \<le> 1 / 2 + \<bar>x * 100000\<bar> / 2 ^ 53
   \<Longrightarrow> \<bar>x - real_of_int k / 100000\<bar> \<le> 1 / 200000 + \<bar>x\<bar> / 2 ^ 53"
proof -
  assume a: "\<bar>real_of_int k - x * 100000\<bar> \<le> 1 / 2 + \<bar>x * 100000\<bar> / 2 ^ 53"
  have "\<bar>x - real_of_int k / 100000\<bar> = \<bar>real_of_int k - x * 100000\<bar> / 100000"
    by (simp add: field_simps abs_if)
  also have "\<dots> \<le> (1 / 2 + \<bar>x * 100000\<bar> / 2 ^ 53) / 100000"
    using a by (simp add: divide_right_mono)
  also have "\<dots> = 1 / 200000 + \<bar>x\<bar> / 2 ^ 53"
    by (simp add: abs_mult field_simps)
  finally show ?thesis .
qed

text \<open>
  C7, as amended. For every valid sample with finite coordinates whose products with
  100000 do not exceed \<open>2\<^sup>3\<^sup>1 - 1\<close> in magnitude, the latitude and longitude fields written
  by \<^verbatim>\<open>GPS_buildBinaryPayload\<close> are the double products \<^verbatim>\<open>lat * 100000.0\<close> and
  \<^verbatim>\<open>lon * 100000.0\<close> (the real products rounded to binary64) rounded to the nearest
  integer, ties away from zero, and each field divided by 100000 is within
  \<open>0.5 \<times> 10\<^sup>-\<^sup>5 + 2\<^sup>-\<^sup>5\<^sup>3 |coordinate|\<close> degrees of the coordinate.
\<close>

theorem fixed_point_rounding:
  assumes "valid info" and "13 \<le> length buf"
    and "lat info = Finite x" and "\<bar>x\<bar> * 100000 \<le> 2147483647"
    and "lon info = Finite z" and "\<bar>z\<bar> * 100000 \<le> 2147483647"
  shows "\<exists>out p q. snd (GPS_buildBinaryPayload U info (Some buf)) = Some out
     \<and> fmul (lat info) (Finite 100000) = Finite p
     \<and> fmul (lon info) (Finite 100000) = Finite q
     \<and> nearest_ties_away p (le_signed32 (take 4 (drop 5 out)))
     \<and> nearest_ties_away q (le_signed32 (take 4 (drop 9 out)))
     \<and> \<bar>x - real_of_int (le_signed32 (take 4 (drop 5 out))) / 100000\<bar>
          \<le> 1 / 200000 + \<bar>x\<bar> / 2 ^ 53
     \<and> \<bar>z - real_of_int (le_signed32 (take 4 (drop 9 out))) / 100000\<bar>
          \<le> 1 / 200000 + \<bar>z\<bar> / 2 ^ 53"
proof -
  let ?out = "[1] @ memcpy_store32 (hhmmss info) @ memcpy_store32 (latFixed U info)
                @ memcpy_store32 (lonFixed U info) @ drop 13 buf"
  obtain p where p: "fmul (Finite x) (Finite 100000) = Finite p"
      "sint (lround_long U (fmul (Finite x) (Finite 100000))) = lround p"
      "\<bar>real_of_int (lround p) - x * 100000\<bar> \<le> 1 / 2 + \<bar>x * 100000\<bar> / 2 ^ 53"
    using scaled_field [OF assms(4), of U] by blast
  obtain q where q: "fmul (Finite z) (Finite 100000) = Finite q"
      "sint (lround_long U (fmul (Finite z) (Finite 100000))) = lround q"
      "\<bar>real_of_int (lround q) - z * 100000\<bar> \<le> 1 / 2 + \<bar>z * 100000\<bar> / 2 ^ 53"
    using scaled_field [OF assms(6), of U] by blast
  have la: "le_signed32 (take 4 (drop 5 ?out)) = lround p"
    using p(2) by (simp only: frame_fields le_signed32_store latFixed_def assms(3))
  have lo: "le_signed32 (take 4 (drop 9 ?out)) = lround q"
    using q(2) by (simp only: frame_fields le_signed32_store lonFixed_def assms(5))
  have "snd (GPS_buildBinaryPayload U info (Some buf)) = Some ?out"
    using assms by (simp add: GPS_buildBinaryPayload_ok)
  moreover have "fmul (lat info) (Finite 100000) = Finite p" "fmul (lon info) (Finite 100000) = Finite q"
    using p(1) q(1) assms by simp_all
  moreover have "nearest_ties_away p (le_signed32 (take 4 (drop 5 ?out)))"
    unfolding la by (rule lround_nearest)
  moreover have "nearest_ties_away q (le_signed32 (take 4 (drop 9 ?out)))"
    unfolding lo by (rule lround_nearest)
  moreover have "\<bar>x - real_of_int (le_signed32 (take 4 (drop 5 ?out))) / 100000\<bar>
          \<le> 1 / 200000 + \<bar>x\<bar> / 2 ^ 53"
    unfolding la using p(3) by (rule quantization)
  moreover have "\<bar>z - real_of_int (le_signed32 (take 4 (drop 9 ?out))) / 100000\<bar>
          \<le> 1 / 200000 + \<bar>z\<bar> / 2 ^ 53"
    unfolding lo using q(3) by (rule quantization)
  ultimately show ?thesis by blast
qed

text \<open>
  The field is not always the real product rounded. For the double nearest to 40.416815
  the real product with 100000 lies below 4041681.5 and rounds to 4041681; the double
  product is 4041681.5 exactly, the field written is 4041682, and it is further than
  \<open>0.5 \<times> 10\<^sup>-\<^sup>5\<close> degrees from the latitude.
\<close>

theorem fixed_point_rounding_counterexample:
  "valid sample_tie
   \<and> lat sample_tie = Finite (2844080515210973 / 2 ^ 46)
   \<and> fround (2844080515210973 / 2 ^ 46) = Finite (2844080515210973 / 2 ^ 46)
   \<and> fmul (lat sample_tie) (Finite 100000) = Finite (8083363 / 2)
   \<and> le_signed32 (take 4 (drop 5 (the (snd (GPS_buildBinaryPayload unspecified_zero sample_tie
          (Some [0, 0, 0, 0, 0, 0, 0, 0, 0, 0, 0, 0, 0])))))) = 4041682
   \<and> \<not> nearest_ties_away (2844080515210973 / 2 ^ 46 * 100000) 4041682
   \<and> nearest_ties_away (2844080515210973 / 2 ^ 46 * 100000) 4041681
   \<and> \<not> \<bar>2844080515210973 / 2 ^ 46 - real_of_int 4041682 / 100000\<bar> \<le> 1 / 200000"
  by (simp add: GPS_buildBinaryPayload_def latFixed_def lonFixed_def lround_long_def lround_def
      memcpy_store32_def sample_tie_def le_signed32_def le_unsigned_def nearest_ties_away_def
      unspecified_zero_def fround_def ilog2_def round_half_even_def compute_bitlen Let_def)

theorem fixed_point_rounding_witness:
  "nearest_ties_away 4041680
     (le_signed32 (take 4 (drop 5 (the (snd (GPS_buildBinaryPayload unspecified_zero
        sample_211507 (Some [0, 0, 0, 0, 0, 0, 0, 0, 0, 0, 0, 0, 0])))))))"
  using fixed_point_rounding [of sample_211507 "[0, 0, 0, 0, 0, 0, 0, 0, 0, 0, 0, 0, 0]"
      "5688158919359621 / 2 ^ 47" "- 4170108074963711 / 2 ^ 50" unspecified_zero]
  by (auto simp add: sample_211507_def fround_def ilog2_def round_half_even_def compute_bitlen Let_def)

section \<open>Round trip\<close>

lemma decoded_coordinate:
  assumes "\<bar>x\<bar> \<le> 180"
  shows "\<exists>a. fdiv (Finite (real_of_int (sint (lround_long U (fmul (Finite x) (Finite 100000))))))
               (Finite 100000) = Finite a
           \<and> \<bar>a - x\<bar> \<le> 1 / 200000 + 1 / 10 ^ 13"
proof -
  have r: "\<bar>x\<bar> * 100000 \<le> 2147483647" using assms by simp
  obtain p where p: "sint (lround_long U (fmul (Finite x) (Finite 100000))) = lround p"
      "\<bar>real_of_int (lround p) - x * 100000\<bar> \<le> 1 / 2 + \<bar>x * 100000\<bar> / 2 ^ 53"
    using scaled_field [OF r, of U] by blast
  let ?k = "lround p"
  have e1: "\<bar>x - real_of_int ?k / 100000\<bar> \<le> 1 / 200000 + \<bar>x\<bar> / 2 ^ 53"
    using p(2) by (rule quantization)
  have x53: "\<bar>x\<bar> / 2 ^ 53 \<le> 180 / 2 ^ 53" using assms by (simp add: divide_right_mono)
  have "\<bar>real_of_int ?k\<bar> \<le> \<bar>x * 100000\<bar> + (1 / 2 + \<bar>x * 100000\<bar> / 2 ^ 53)"
    using p(2) by linarith
  moreover have "\<bar>x * 100000\<bar> \<le> 18000000" using assms by (simp add: abs_mult)
  moreover have "\<bar>x * 100000\<bar> / 2 ^ 53 \<le> 18000000 / 2 ^ 53"
    using \<open>\<bar>x * 100000\<bar> \<le> 18000000\<close> by (simp add: divide_right_mono)
  ultimately have kb: "\<bar>real_of_int ?k\<bar> \<le> 18000001" by simp
  then have "\<bar>?k\<bar> \<le> 2147483648" by linarith
  from fdiv_100000 [OF this] obtain a where
    a: "fdiv (Finite (real_of_int ?k)) (Finite 100000) = Finite a"
       "\<bar>a - real_of_int ?k / 100000\<bar> \<le> \<bar>real_of_int ?k / 100000\<bar> / 2 ^ 53"
    by blast
  have "\<bar>real_of_int ?k / 100000\<bar> \<le> 18000001 / 100000" using kb by simp
  then have "\<bar>real_of_int ?k / 100000\<bar> / 2 ^ 53 \<le> 18000001 / 100000 / 2 ^ 53"
    by (simp add: divide_right_mono)
  with a(2) have e2: "\<bar>a - real_of_int ?k / 100000\<bar> \<le> 18000001 / 100000 / 2 ^ 53" by linarith
  have "180 / 2 ^ 53 + 18000001 / 100000 / 2 ^ 53 \<le> (1 / 10 ^ 13 :: real)" by simp
  with e1 e2 x53 have "\<bar>a - x\<bar> \<le> 1 / 200000 + 1 / 10 ^ 13" by linarith
  with a(1) p(1) show ?thesis by simp
qed

text \<open>
  C1, as amended. For every valid sample with latitude in \<open>[-90, 90]\<close>, longitude in
  \<open>[-180, 180]\<close> and time of day in \<open>[0, 235959]\<close>, \<^verbatim>\<open>GPS_buildBinaryPayload\<close> into a
  buffer of 13 bytes returns 13, and \<^verbatim>\<open>GPS_parsePayload\<close> on the result succeeds,
  gives back the time of day exactly and the latitude and longitude within
  \<open>0.5 \<times> 10\<^sup>-\<^sup>5 + 10\<^sup>-\<^sup>1\<^sup>3\<close> degrees, and marks the sample valid.
\<close>

theorem roundtrip:
  assumes "valid info" and "lat info = Finite x" and "- 90 \<le> x" and "x \<le> 90"
    and "lon info = Finite z" and "- 180 \<le> z" and "z \<le> 180"
    and "uint (hhmmss info) \<le> 235959" and "length buf = 13"
  shows "\<exists>out a b. GPS_buildBinaryPayload U info (Some buf) = (13, Some out)
     \<and> fst (GPS_parsePayload (Some out) gi)
     \<and> hhmmss (snd (GPS_parsePayload (Some out) gi)) = hhmmss info
     \<and> lat (snd (GPS_parsePayload (Some out) gi)) = Finite a
     \<and> lon (snd (GPS_parsePayload (Some out) gi)) = Finite b
     \<and> \<bar>a - x\<bar> \<le> 1 / 200000 + 1 / 10 ^ 13
     \<and> \<bar>b - z\<bar> \<le> 1 / 200000 + 1 / 10 ^ 13
     \<and> valid (snd (GPS_parsePayload (Some out) gi))"
proof -
  let ?out = "[1] @ memcpy_store32 (hhmmss info) @ memcpy_store32 (latFixed U info)
                @ memcpy_store32 (lonFixed U info) @ drop 13 buf"
  have b: "GPS_buildBinaryPayload U info (Some buf) = (13, Some ?out)"
    using assms by (simp add: GPS_buildBinaryPayload_ok)
  have len: "length ?out = 13" "?out ! 0 = 1"
    using assms by (simp_all add: length_memcpy_store32)
  have "\<bar>x\<bar> \<le> 180" using assms by simp
  from decoded_coordinate [OF this, of U] obtain a where
    a: "fdiv (Finite (real_of_int (sint (latFixed U info)))) (Finite 100000) = Finite a"
       "\<bar>a - x\<bar> \<le> 1 / 200000 + 1 / 10 ^ 13"
    using assms(2) by (auto simp add: latFixed_def)
  have "\<bar>z\<bar> \<le> 180" using assms by simp
  from decoded_coordinate [OF this, of U] obtain c where
    c: "fdiv (Finite (real_of_int (sint (lonFixed U info)))) (Finite 100000) = Finite c"
       "\<bar>c - z\<bar> \<le> 1 / 200000 + 1 / 10 ^ 13"
    using assms(5) by (auto simp add: lonFixed_def)
  have p: "GPS_parsePayload (Some ?out) gi =
     (True, gi\<lparr>hhmmss := hhmmss info, lat := Finite a, lon := Finite c, valid := True\<rparr>)"
    unfolding GPS_parsePayload_def option.case Let_def frame_fields memcpy_load_store a(1) c(1)
    using len by (simp only: if_False simp_thms if_True)
  have ok: "fst (GPS_parsePayload (Some ?out) gi)"
    by (simp only: p fst_conv)
  have r: "snd (GPS_parsePayload (Some ?out) gi) =
     gi\<lparr>hhmmss := hhmmss info, lat := Finite a, lon := Finite c, valid := True\<rparr>"
    by (simp only: p snd_conv)
  have "hhmmss (snd (GPS_parsePayload (Some ?out) gi)) = hhmmss info
     \<and> lat (snd (GPS_parsePayload (Some ?out) gi)) = Finite a
     \<and> lon (snd (GPS_parsePayload (Some ?out) gi)) = Finite c
     \<and> valid (snd (GPS_parsePayload (Some ?out) gi))"
    unfolding r by simp
  with b ok a(2) c(2) show ?thesis by blast
qed

text \<open>
  The bound \<open>0.5 \<times> 10\<^sup>-\<^sup>5\<close> itself is exceeded. The latitude 1/64 is a double; its
  product with 100000 is 1562.5, the field is 1563, and the double quotient of 1563 and
  100000 lies above 0.01563, further than \<open>0.5 \<times> 10\<^sup>-\<^sup>5\<close> from 1/64.
\<close>

theorem roundtrip_counterexample:
  "valid sample_64th
   \<and> lat sample_64th = Finite (1 / 64) \<and> - 90 \<le> (1 / 64 :: real) \<and> (1 / 64 :: real) \<le> 90
   \<and> fround (1 / 64) = Finite (1 / 64)
   \<and> lon sample_64th = Finite 0
   \<and> uint (hhmmss sample_64th) \<le> 235959
   \<and> fst (GPS_buildBinaryPayload unspecified_zero sample_64th
            (Some [0, 0, 0, 0, 0, 0, 0, 0, 0, 0, 0, 0, 0])) = 13
   \<and> fst (GPS_parsePayload
            (snd (GPS_buildBinaryPayload unspecified_zero sample_64th
                    (Some [0, 0, 0, 0, 0, 0, 0, 0, 0, 0, 0, 0, 0])))
            \<lparr>lat = Finite 0, lon = Finite 0, hhmmss = 0, valid = False\<rparr>)
   \<and> lat (snd (GPS_parsePayload
            (snd (GPS_buildBinaryPayload unspecified_zero sample_64th
                    (Some [0, 0, 0, 0, 0, 0, 0, 0, 0, 0, 0, 0, 0])))
            \<lparr>lat = Finite 0, lon = Finite 0, hhmmss = 0, valid = False\<rparr>))
       = Finite (4505040779251255 / 2 ^ 58)
   \<and> \<not> \<bar>4505040779251255 / 2 ^ 58 - (1 / 64 :: real)\<bar> \<le> 1 / 200000"
  by (simp add: GPS_buildBinaryPayload_def GPS_parsePayload_def latFixed_def lonFixed_def
      lround_long_def lround_def memcpy_store32_def memcpy_load32_def sample_64th_def
      unspecified_zero_def fround_def ilog2_def round_half_even_def compute_bitlen Let_def)

theorem roundtrip_witness:
  "fst (GPS_parsePayload
          (snd (GPS_buildBinaryPayload unspecified_zero sample_211507
                  (Some [0, 0, 0, 0, 0, 0, 0, 0, 0, 0, 0, 0, 0])))
          \<lparr>lat = Finite 0, lon = Finite 0, hhmmss = 0, valid = False\<rparr>)
   \<and> hhmmss (snd (GPS_parsePayload
          (snd (GPS_buildBinaryPayload unspecified_zero sample_211507
                  (Some [0, 0, 0, 0, 0, 0, 0, 0, 0, 0, 0, 0, 0])))
          \<lparr>lat = Finite 0, lon = Finite 0, hhmmss = 0, valid = False\<rparr>)) = 211507"
  using roundtrip [of sample_211507 "5688158919359621 / 2 ^ 47" "- 4170108074963711 / 2 ^ 50"
      "[0, 0, 0, 0, 0, 0, 0, 0, 0, 0, 0, 0, 0]" unspecified_zero
      "\<lparr>lat = Finite 0, lon = Finite 0, hhmmss = 0, valid = False\<rparr>"]
  by (auto simp add: sample_211507_def)

section \<open>Receive session\<close>

text \<open>
  C8. When the frame-ready flag \<^verbatim>\<open>s_rxFlag\<close> is clear, \<^verbatim>\<open>LORA_rxTick\<close> changes
  nothing: the cached sample, the metrics, the flag and the record of driver calls (so
  no read is made) are what they were.
\<close>

theorem LORA_rxTick_idle:
  "\<not> s_rxFlag s \<Longrightarrow> LORA_rxTick d s = s"
  by (simp add: LORA_rxTick_def)

theorem LORA_rxTick_idle_witness:
  "LORA_rxTick \<lparr>getPacketLength = 13, readData_status = RADIOLIB_ERR_NONE,
                 readData_buf = (\<lambda>i. 1), getRSSI = - 120, getSNR = 3\<rparr>
               \<lparr>s_rxFlag = False,
                 s_lastGps = \<lparr>lat = Finite (81 / 2), lon = Finite (- 15 / 4), hhmmss = 211507, valid = True\<rparr>,
                 s_lastRssi = - 80, s_lastSnr = 7, rx_calls = []\<rparr>
   = \<lparr>s_rxFlag = False,
       s_lastGps = \<lparr>lat = Finite (81 / 2), lon = Finite (- 15 / 4), hhmmss = 211507, valid = True\<rparr>,
       s_lastRssi = - 80, s_lastSnr = 7, rx_calls = []\<rparr>"
  using LORA_rxTick_idle [of "\<lparr>s_rxFlag = False,
                 s_lastGps = \<lparr>lat = Finite (81 / 2), lon = Finite (- 15 / 4), hhmmss = 211507, valid = True\<rparr>,
                 s_lastRssi = - 80, s_lastSnr = 7, rx_calls = []\<rparr>"
         "\<lparr>getPacketLength = 13, readData_status = RADIOLIB_ERR_NONE,
                 readData_buf = (\<lambda>i. 1), getRSSI = - 120, getSNR = 3\<rparr>"]
  by simp

text \<open>The length handed to \<^verbatim>\<open>readData\<close>, and the driver calls of one tick.\<close>

lemma rx_len_range: "1 \<le> rx_len d \<and> rx_len d \<le> 64"
  by (simp add: rx_len_def LORA_MAX_READ_def Let_def)

lemma rx_calls_tick:
  "s_rxFlag s \<Longrightarrow>
   rx_calls (LORA_rxTick d s) =
     rx_calls s @ [GetPacketLength, ReadData (nat (rx_len d))]
       @ (if readData_status d = RADIOLIB_ERR_NONE then [GetRSSI, GetSNR] else [])
       @ [StartReceive]"
  by (simp add: LORA_rxTick_def Let_def split: prod.splits)

text \<open>
  C9. Whatever length the driver reports, every \<^verbatim>\<open>readData\<close> call that
  \<^verbatim>\<open>LORA_rxTick\<close> makes asks for at least 1 and at most 64 bytes, the size of the local
  buffer: a reported length of 0 or less becomes 64, a reported length above 64 becomes
  64, and any other length is used as it is.
\<close>

theorem LORA_rxTick_read_bounded:
  "(ReadData k \<in> set (rx_calls (LORA_rxTick d s)) \<longrightarrow>
        ReadData k \<in> set (rx_calls s) \<or> (k = nat (rx_len d) \<and> 1 \<le> k \<and> k \<le> 64))
   \<and> (s_rxFlag s \<longrightarrow> ReadData (nat (rx_len d)) \<in> set (rx_calls (LORA_rxTick d s)))
   \<and> (sint (ucast (getPacketLength d) :: 16 word) \<le> 0 \<longrightarrow> rx_len d = 64)
   \<and> (64 < sint (ucast (getPacketLength d) :: 16 word) \<longrightarrow> rx_len d = 64)
   \<and> (0 < sint (ucast (getPacketLength d) :: 16 word)
        \<and> sint (ucast (getPacketLength d) :: 16 word) \<le> 64
        \<longrightarrow> rx_len d = sint (ucast (getPacketLength d) :: 16 word))"
proof -
  have r: "1 \<le> nat (rx_len d) \<and> nat (rx_len d) \<le> 64"
    using rx_len_range [of d] by auto
  have "ReadData k \<in> set (rx_calls (LORA_rxTick d s)) \<Longrightarrow>
        ReadData k \<in> set (rx_calls s) \<or> (k = nat (rx_len d) \<and> 1 \<le> k \<and> k \<le> 64)"
  proof (cases "s_rxFlag s")
    case True
    assume "ReadData k \<in> set (rx_calls (LORA_rxTick d s))"
    then show ?thesis using r by (auto simp add: rx_calls_tick [OF True] split: if_splits)
  next
    case False
    assume "ReadData k \<in> set (rx_calls (LORA_rxTick d s))"
    then show ?thesis using False by (simp add: LORA_rxTick_def)
  qed
  moreover have "s_rxFlag s \<Longrightarrow> ReadData (nat (rx_len d)) \<in> set (rx_calls (LORA_rxTick d s))"
    by (simp add: rx_calls_tick)
  ultimately show ?thesis
    by (simp add: rx_len_def LORA_MAX_READ_def Let_def)
qed

theorem LORA_rxTick_read_bounded_witness:
  "rx_len \<lparr>getPacketLength = 200, readData_status = RADIOLIB_ERR_NONE,
                 readData_buf = (\<lambda>i. 1), getRSSI = - 120, getSNR = 3\<rparr> = 64
   \<and> ReadData 64 \<in> set (rx_calls (LORA_rxTick \<lparr>getPacketLength = 200, readData_status = RADIOLIB_ERR_NONE,
                 readData_buf = (\<lambda>i. 1), getRSSI = - 120, getSNR = 3\<rparr> 
          \<lparr>s_rxFlag = True,
                 s_lastGps = \<lparr>lat = Finite 0, lon = Finite 0, hhmmss = 0, valid = False\<rparr>,
                 s_lastRssi = 0, s_lastSnr = 0, rx_calls = []\<rparr>))"
  using LORA_rxTick_read_bounded [of 64 "\<lparr>getPacketLength = 200, readData_status = RADIOLIB_ERR_NONE,
                 readData_buf = (\<lambda>i. 1), getRSSI = - 120, getSNR = 3\<rparr>" 
          "\<lparr>s_rxFlag = True,
                 s_lastGps = \<lparr>lat = Finite 0, lon = Finite 0, hhmmss = 0, valid = False\<rparr>,
                 s_lastRssi = 0, s_lastSnr = 0, rx_calls = []\<rparr>"]
  by auto

section \<open>Sample cache\<close>

lemma GPS_parsePayload_marked:
  "length bs = 13 \<Longrightarrow> bs ! 0 = 1 \<Longrightarrow>
   fst (GPS_parsePayload (Some bs) out) \<and> valid (snd (GPS_parsePayload (Some bs) out))"
  by (simp add: GPS_parsePayload_def Let_def)

lemma LORA_rxTick_stores:
  "s_rxFlag s \<Longrightarrow> readData_status d = RADIOLIB_ERR_NONE \<Longrightarrow> rx_len d = 13 \<Longrightarrow>
   readData_buf d 0 = 1 \<Longrightarrow>
   s_lastGps (LORA_rxTick d s) =
     snd (GPS_parsePayload (Some (map (readData_buf d) [0, 1, 2, 3, 4, 5, 6, 7, 8, 9, 10, 11, 12]))
            \<lparr>lat = Finite 0, lon = Finite 0, hhmmss = 0, valid = False\<rparr>)"
  using GPS_parsePayload_marked [of "map (readData_buf d) [0, 1, 2, 3, 4, 5, 6, 7, 8, 9, 10, 11, 12]"
           "\<lparr>lat = Finite 0, lon = Finite 0, hhmmss = 0, valid = False\<rparr>"]
  by (auto simp add: LORA_rxTick_def Let_def split: prod.splits)

lemma LORA_rxTick_keeps:
  "readData_status d \<noteq> RADIOLIB_ERR_NONE \<or> rx_len d \<noteq> 13 \<or> readData_buf d 0 \<noteq> 1 \<Longrightarrow>
   s_lastGps (LORA_rxTick d s) = s_lastGps s"
  by (auto simp add: LORA_rxTick_def Let_def)

lemma LORA_rxTick_metrics:
  "s_lastRssi (LORA_rxTick d s) =
     (if s_rxFlag s \<and> readData_status d = RADIOLIB_ERR_NONE then getRSSI d else s_lastRssi s)"
  "s_lastSnr (LORA_rxTick d s) =
     (if s_rxFlag s \<and> readData_status d = RADIOLIB_ERR_NONE then getSNR d else s_lastSnr s)"
  by (auto simp add: LORA_rxTick_def Let_def split: prod.splits)

lemma LORA_rxTick_valid:
  "valid (s_lastGps s) \<Longrightarrow> valid (s_lastGps (LORA_rxTick d s))"
  by (auto simp add: LORA_rxTick_def Let_def split: prod.splits)

text \<open>
  C4, as amended. Once the cache holds a valid sample it holds a valid sample after every
  tick. A frame that is malformed (read error, length other than 13, or marker other than
  1) leaves the cached sample as it was. The two metrics are those of the last packet
  read without error: a malformed frame that was read without error replaces them by its
  own, and they stay as they were only when the flag is clear or the read failed.
\<close>

theorem cache_under_malformed_frame:
  assumes "valid (s_lastGps s)"
  shows "valid (s_lastGps (LORA_rxTick d s))
    \<and> (readData_status d \<noteq> RADIOLIB_ERR_NONE \<or> rx_len d \<noteq> 13 \<or> readData_buf d 0 \<noteq> 1 \<longrightarrow>
         s_lastGps (LORA_rxTick d s) = s_lastGps s
       \<and> (s_rxFlag s \<and> readData_status d = RADIOLIB_ERR_NONE \<longrightarrow>
            s_lastRssi (LORA_rxTick d s) = getRSSI d \<and> s_lastSnr (LORA_rxTick d s) = getSNR d)
       \<and> (\<not> s_rxFlag s \<or> readData_status d \<noteq> RADIOLIB_ERR_NONE \<longrightarrow>
            s_lastRssi (LORA_rxTick d s) = s_lastRssi s \<and> s_lastSnr (LORA_rxTick d s) = s_lastSnr s)
       \<and> LORA_lastValidGPS (LORA_rxTick d s)
           = Some (s_lastGps s, s_lastRssi (LORA_rxTick d s), s_lastSnr (LORA_rxTick d s)))"
  using assms LORA_rxTick_valid [of s d]
  by (auto simp add: LORA_rxTick_keeps LORA_rxTick_metrics LORA_lastValidGPS_def)

text \<open>
  The metrics do not stay those of the cached sample: after a valid sample received at
  -80 dBm and 7 dB, a frame of 5 bytes received at -120 dBm and 3 dB leaves the sample
  but the cache then reports -120 dBm and 3 dB with it.
\<close>

theorem cache_under_malformed_frame_counterexample:
  "valid (s_lastGps \<lparr>s_rxFlag = True,
                 s_lastGps = \<lparr>lat = Finite (81 / 2), lon = Finite (- 15 / 4), hhmmss = 211507, valid = True\<rparr>,
                 s_lastRssi = - 80, s_lastSnr = 7, rx_calls = []\<rparr>)
  \<and> rx_len \<lparr>getPacketLength = 5, readData_status = RADIOLIB_ERR_NONE,
                 readData_buf = (\<lambda>i. 0), getRSSI = - 120, getSNR = 3\<rparr> \<noteq> 13
  \<and> LORA_lastValidGPS \<lparr>s_rxFlag = True,
                 s_lastGps = \<lparr>lat = Finite (81 / 2), lon = Finite (- 15 / 4), hhmmss = 211507, valid = True\<rparr>,
                 s_lastRssi = - 80, s_lastSnr = 7, rx_calls = []\<rparr>
      = Some (\<lparr>lat = Finite (81 / 2), lon = Finite (- 15 / 4), hhmmss = 211507, valid = True\<rparr>, - 80, 7)
  \<and> LORA_lastValidGPS
       (LORA_rxTick \<lparr>getPacketLength = 5, readData_status = RADIOLIB_ERR_NONE,
                 readData_buf = (\<lambda>i. 0), getRSSI = - 120, getSNR = 3\<rparr>
          \<lparr>s_rxFlag = True,
                 s_lastGps = \<lparr>lat = Finite (81 / 2), lon = Finite (- 15 / 4), hhmmss = 211507, valid = True\<rparr>,
                 s_lastRssi = - 80, s_lastSnr = 7, rx_calls = []\<rparr>)
      = Some (\<lparr>lat = Finite (81 / 2), lon = Finite (- 15 / 4), hhmmss = 211507, valid = True\<rparr>, - 120, 3)"
  by (simp add: LORA_rxTick_def LORA_lastValidGPS_def rx_len_def LORA_MAX_READ_def Let_def)

theorem cache_under_malformed_frame_witness:
  "s_lastGps (LORA_rxTick \<lparr>getPacketLength = 5, readData_status = RADIOLIB_ERR_NONE,
                 readData_buf = (\<lambda>i. 0), getRSSI = - 120, getSNR = 3\<rparr>
          \<lparr>s_rxFlag = True,
                 s_lastGps = \<lparr>lat = Finite (81 / 2), lon = Finite (- 15 / 4), hhmmss = 211507, valid = True\<rparr>,
                 s_lastRssi = - 80, s_lastSnr = 7, rx_calls = []\<rparr>)
     = \<lparr>lat = Finite (81 / 2), lon = Finite (- 15 / 4), hhmmss = 211507, valid = True\<rparr>
   \<and> s_lastRssi (LORA_rxTick \<lparr>getPacketLength = 5, readData_status = RADIOLIB_ERR_NONE,
                 readData_buf = (\<lambda>i. 0), getRSSI = - 120, getSNR = 3\<rparr>
          \<lparr>s_rxFlag = True,
                 s_lastGps = \<lparr>lat = Finite (81 / 2), lon = Finite (- 15 / 4), hhmmss = 211507, valid = True\<rparr>,
                 s_lastRssi = - 80, s_lastSnr = 7, rx_calls = []\<rparr>) = - 120"
  using cache_under_malformed_frame [of "\<lparr>s_rxFlag = True,
                 s_lastGps = \<lparr>lat = Finite (81 / 2), lon = Finite (- 15 / 4), hhmmss = 211507, valid = True\<rparr>,
                 s_lastRssi = - 80, s_lastSnr = 7, rx_calls = []\<rparr>"
             "\<lparr>getPacketLength = 5, readData_status = RADIOLIB_ERR_NONE,
                 readData_buf = (\<lambda>i. 0), getRSSI = - 120, getSNR = 3\<rparr>"]
  by (simp add: rx_len_def LORA_MAX_READ_def Let_def)

text \<open>
  C10. Any 13 bytes that start with the marker 1 are decoded with success and marked
  valid, with no condition on the values decoded; when \<^verbatim>\<open>LORA_rxTick\<close> reads such a
  frame without error, the decoded sample becomes the cached sample and
  \<^verbatim>\<open>LORA_lastValidGPS\<close> returns it.
\<close>

theorem unvalidated_frame_accepted:
  "(length bs = 13 \<and> bs ! 0 = 1 \<longrightarrow>
      fst (GPS_parsePayload (Some bs) out) \<and> valid (snd (GPS_parsePayload (Some bs) out)))
   \<and> (s_rxFlag s \<and> readData_status d = RADIOLIB_ERR_NONE \<and> rx_len d = 13
        \<and> readData_buf d 0 = 1 \<longrightarrow>
      s_lastGps (LORA_rxTick d s) =
        snd (GPS_parsePayload
               (Some (map (readData_buf d) [0, 1, 2, 3, 4, 5, 6, 7, 8, 9, 10, 11, 12]))
               \<lparr>lat = Finite 0, lon = Finite 0, hhmmss = 0, valid = False\<rparr>)
      \<and> LORA_lastValidGPS (LORA_rxTick d s)
          = Some (s_lastGps (LORA_rxTick d s), getRSSI d, getSNR d))"
proof (intro conjI impI)
  assume "length bs = 13 \<and> bs ! 0 = 1"
  then show "fst (GPS_parsePayload (Some bs) out)" "valid (snd (GPS_parsePayload (Some bs) out))"
    by (simp_all add: GPS_parsePayload_marked)
next
  assume a: "s_rxFlag s \<and> readData_status d = RADIOLIB_ERR_NONE \<and> rx_len d = 13
        \<and> readData_buf d 0 = 1"
  then show st: "s_lastGps (LORA_rxTick d s) =
        snd (GPS_parsePayload
               (Some (map (readData_buf d) [0, 1, 2, 3, 4, 5, 6, 7, 8, 9, 10, 11, 12]))
               \<lparr>lat = Finite 0, lon = Finite 0, hhmmss = 0, valid = False\<rparr>)"
    by (simp add: LORA_rxTick_stores)
  have "valid (s_lastGps (LORA_rxTick d s))"
    unfolding st using a by (intro GPS_parsePayload_marked [THEN conjunct2]) simp_all
  then show "LORA_lastValidGPS (LORA_rxTick d s)
          = Some (s_lastGps (LORA_rxTick d s), getRSSI d, getSNR d)"
    using a by (simp add: LORA_lastValidGPS_def LORA_rxTick_metrics)
qed

text \<open>
  A frame with time of day 4294967295 and the fields 2147483647 and -2147483648 is stored
  in the cache, with the doubles nearest to 21474.83647 and -21474.83648 as coordinates.
\<close>

theorem unvalidated_frame_accepted_witness:
  "uint (hhmmss (s_lastGps (LORA_rxTick
      \<lparr>getPacketLength = 13, readData_status = RADIOLIB_ERR_NONE,
        readData_buf = (\<lambda>i. [1, 0xFF, 0xFF, 0xFF, 0xFF, 0xFF, 0xFF, 0xFF, 0x7F, 0, 0, 0, 0x80] ! i),
        getRSSI = - 120, getSNR = 3\<rparr>
      \<lparr>s_rxFlag = True, s_lastGps = \<lparr>lat = Finite 0, lon = Finite 0, hhmmss = 0, valid = False\<rparr>,
        s_lastRssi = 0, s_lastSnr = 0, rx_calls = []\<rparr>))) = 4294967295
   \<and> lat (s_lastGps (LORA_rxTick
      \<lparr>getPacketLength = 13, readData_status = RADIOLIB_ERR_NONE,
        readData_buf = (\<lambda>i. [1, 0xFF, 0xFF, 0xFF, 0xFF, 0xFF, 0xFF, 0xFF, 0x7F, 0, 0, 0, 0x80] ! i),
        getRSSI = - 120, getSNR = 3\<rparr>
      \<lparr>s_rxFlag = True, s_lastGps = \<lparr>lat = Finite 0, lon = Finite 0, hhmmss = 0, valid = False\<rparr>,
        s_lastRssi = 0, s_lastSnr = 0, rx_calls = []\<rparr>)) = Finite (5902958100838277 / 2 ^ 38)
   \<and> lon (s_lastGps (LORA_rxTick
      \<lparr>getPacketLength = 13, readData_status = RADIOLIB_ERR_NONE,
        readData_buf = (\<lambda>i. [1, 0xFF, 0xFF, 0xFF, 0xFF, 0xFF, 0xFF, 0xFF, 0x7F, 0, 0, 0, 0x80] ! i),
        getRSSI = - 120, getSNR = 3\<rparr>
      \<lparr>s_rxFlag = True, s_lastGps = \<lparr>lat = Finite 0, lon = Finite 0, hhmmss = 0, valid = False\<rparr>,
        s_lastRssi = 0, s_lastSnr = 0, rx_calls = []\<rparr>)) = Finite (- 5902958103587057 / 2 ^ 38)
   \<and> LORA_lastValidGPS (LORA_rxTick
      \<lparr>getPacketLength = 13, readData_status = RADIOLIB_ERR_NONE,
        readData_buf = (\<lambda>i. [1, 0xFF, 0xFF, 0xFF, 0xFF, 0xFF, 0xFF, 0xFF, 0x7F, 0, 0, 0, 0x80] ! i),
        getRSSI = - 120, getSNR = 3\<rparr>
      \<lparr>s_rxFlag = True, s_lastGps = \<lparr>lat = Finite 0, lon = Finite 0, hhmmss = 0, valid = False\<rparr>,
        s_lastRssi = 0, s_lastSnr = 0, rx_calls = []\<rparr>) \<noteq> None"
  using unvalidated_frame_accepted [of "[]" "\<lparr>lat = Finite 0, lon = Finite 0, hhmmss = 0, valid = False\<rparr>"
      "\<lparr>s_rxFlag = True, s_lastGps = \<lparr>lat = Finite 0, lon = Finite 0, hhmmss = 0, valid = False\<rparr>,
        s_lastRssi = 0, s_lastSnr = 0, rx_calls = []\<rparr>"
      "\<lparr>getPacketLength = 13, readData_status = RADIOLIB_ERR_NONE,
        readData_buf = (\<lambda>i. [1, 0xFF, 0xFF, 0xFF, 0xFF, 0xFF, 0xFF, 0xFF, 0x7F, 0, 0, 0, 0x80] ! i),
        getRSSI = - 120, getSNR = 3\<rparr>"]
  by (simp add: rx_len_def LORA_MAX_READ_def Let_def GPS_parsePayload_def memcpy_load32_def
      fround_def ilog2_def round_half_even_def compute_bitlen)

section \<open>Periodic send scheduler\<close>




















section \<open>Transmit session\<close>




end
